theory Spec2Isabelle
  imports Main "HOL-Library.AList"
begin

section \<open>JavaScript values\<close>

text \<open>
  The response schema of the narrative generator declares every numeric field an
  INTEGER, so a \<^verbatim>\<open>number\<close> is an \<^typ>\<open>int\<close>. A nullable field of the game
  state (\<^verbatim>\<open>T | null\<close>) is an \<^typ>\<open>'a option\<close> with \<^term>\<open>None\<close> for
  \<^verbatim>\<open>null\<close>. The operator \<^verbatim>\<open>||\<close> takes its right operand when the left one is
  falsy: \<^verbatim>\<open>undefined\<close>, \<^verbatim>\<open>null\<close>, the number 0 or the empty string. Arrays and
  objects are always truthy.

  The payload is parsed JSON cast to its interface, so an optional field
  (\<^verbatim>\<open>x?: T\<close>) may be missing (\<^verbatim>\<open>undefined\<close>), \<^verbatim>\<open>null\<close> or a value. Where the
  source reads a field through \<^verbatim>\<open>||\<close>, \<^verbatim>\<open>&&\<close>, \<^verbatim>\<open>?.\<close> or a truthiness test only,
  missing and null behave alike and the field is an \<^typ>\<open>'a option\<close> with
  \<^term>\<open>None\<close> for both. The enemy health of a payload is compared with
  \<^verbatim>\<open>undefined\<close> instead, which tells the two apart, so it has the three-valued
  type below; \<open>stored\<close> is what an assignment of the field writes into a nullable
  field of the state (the source assigns it only when it is not missing).
\<close>

datatype 'a js_field = Undefined | Null | Value 'a

fun stored :: "'a js_field \<Rightarrow> 'a option" where
  "stored Undefined = None"
| "stored Null = None"
| "stored (Value v) = Some v"

definition num_or :: "int \<Rightarrow> int \<Rightarrow> int" where
  "num_or x d = (if x = 0 then d else x)"

definition opt_num_or :: "int option \<Rightarrow> int \<Rightarrow> int" where
  "opt_num_or x d = (case x of None \<Rightarrow> d | Some v \<Rightarrow> num_or v d)"

definition truthy_str :: "string option \<Rightarrow> bool" where
  "truthy_str x = (case x of None \<Rightarrow> False | Some s \<Rightarrow> s \<noteq> [])"

definition opt_str_or :: "string option \<Rightarrow> string \<Rightarrow> string" where
  "opt_str_or x d = (case x of None \<Rightarrow> d | Some s \<Rightarrow> if s = [] then d else s)"

definition opt_list_or :: "'a list option \<Rightarrow> 'a list \<Rightarrow> 'a list" where
  "opt_list_or x d = (case x of None \<Rightarrow> d | Some xs \<Rightarrow> xs)"

definition truthy_bool :: "bool option \<Rightarrow> bool" where
  "truthy_bool x = (case x of None \<Rightarrow> False | Some b \<Rightarrow> b)"

text \<open>\<^verbatim>\<open>Array.prototype.findIndex\<close>: the first index whose element satisfies the
  predicate, \<^term>\<open>None\<close> for \<^verbatim>\<open>-1\<close>.\<close>

fun findIndex :: "('a \<Rightarrow> bool) \<Rightarrow> 'a list \<Rightarrow> nat option" where
  "findIndex p [] = None"
| "findIndex p (x # xs) =
     (if p x then Some 0 else map_option Suc (findIndex p xs))"

text \<open>\<^verbatim>\<open>String.prototype.includes\<close>.\<close>

fun str_includes :: "string \<Rightarrow> string \<Rightarrow> bool" where
  "str_includes [] pat = (pat = [])"
| "str_includes (c # cs) pat = (take (length pat) (c # cs) = pat \<or> str_includes cs pat)"

text \<open>Object spread \<^verbatim>\<open>{...a, ...b}\<close> on records kept as association lists in key
  order: a key of \<open>b\<close> already in \<open>a\<close> is overwritten in place, a new key is appended.\<close>

definition spread :: "('k \<times> 'v) list \<Rightarrow> ('k \<times> 'v) list \<Rightarrow> ('k \<times> 'v) list" where
  "spread a b = fold (\<lambda>(k, v). AList.update k v) b a"

datatype js_error = Error (message: string)

section \<open>Data model (types.ts)\<close>

record PlayerStats =
  strength :: int
  agility :: int
  intelligence :: int
  charisma :: int

text \<open>\<^verbatim>\<open>Partial<PlayerStats & { health: number }>\<close>\<close>

record StatsUpdate =
  su_health :: "int option"
  su_strength :: "int option"
  su_agility :: "int option"
  su_intelligence :: "int option"
  su_charisma :: "int option"

text \<open>\<^verbatim>\<open>Omit<CodexEntry, 'turnUnlocked' | 'isNew'>\<close> is the base record and
  \<open>CodexEntry\<close> extends it. The category is one of five strings by declaration;
  the payload is cast, never validated, so it is kept as a string.\<close>

record CodexProposal =
  entry_id :: string
  title :: string
  category :: string
  content :: string

record CodexEntry = CodexProposal +
  turnUnlocked :: int
  isNew :: "bool option"

text \<open>The status of an NPC is one of fourteen strings by declaration; an
  instruction's \<^verbatim>\<open>newStatus\<close> is any string and is cast to it unchecked, so the
  status is kept as a string.\<close>

record NPC =
  npc_id :: string
  npc_name :: string
  npc_description :: string
  affinity :: int
  status :: string

record RelationshipUpdate =
  npcId :: string
  npcName :: string
  npcDescription :: "string option"
  affinityChange :: int
  newStatus :: "string option"

record WorldEvent =
  event_id :: string
  event_type :: string
  event_title :: string
  event_description :: string

record PlayerPersona =
  persona_id :: "string option"
  persona_name :: string
  gender :: string
  appearance :: string
  backstory :: string
  personality :: string

datatype flag_value = FlagString string | FlagBool bool | FlagNumber int

type_synonym flags = "(string \<times> flag_value) list"

record AdventureNode =
  storySegment :: string
  choices :: "string list"
  node_inventory :: "string list"
  currentQuest :: string
  locationName :: string
  summary :: "string option"
  statsUpdate :: "StatsUpdate option"
  worldUpdates :: "flags option"
  isCombat :: "bool option"
  node_enemyName :: "string option"
  node_enemyHealth :: "int js_field"
  node_enemyMaxHealth :: "int option"
  node_enemyAbilities :: "string list option"
  xpAward :: "int option"
  newCodexEntries :: "CodexProposal list option"
  relationshipUpdates :: "RelationshipUpdate list option"
  events :: "WorldEvent list option"

record GameState =
  inventory :: "string list"
  quest :: string
  location :: string
  genre :: string
  health :: int
  maxHealth :: int
  turnCount :: int
  stats :: PlayerStats
  worldState :: flags
  inCombat :: bool
  enemyName :: "string option"
  enemyHealth :: "int option"
  enemyMaxHealth :: "int option"
  enemyAbilities :: "string list option"
  xp :: int
  level :: int
  skillPoints :: int
  unlockedSkills :: "string list"
  codex :: "CodexEntry list"
  relationships :: "NPC list"
  persona :: PlayerPersona

section \<open>The turn resolver (App.tsx, handleChoice, steps A to I)\<close>

text \<open>\<^verbatim>\<open>newNode.statsUpdate?.f\<close>\<close>

definition statsUpdate_field :: "(StatsUpdate \<Rightarrow> int option) \<Rightarrow> AdventureNode \<Rightarrow> int option" where
  "statsUpdate_field f newNode = (case statsUpdate newNode of None \<Rightarrow> None | Some u \<Rightarrow> f u)"

subsection \<open>Step A: stats\<close>

definition newStats :: "GameState \<Rightarrow> AdventureNode \<Rightarrow> PlayerStats" where
  "newStats gameState newNode =
     \<lparr> strength = num_or (strength (stats gameState)) 0
                    + opt_num_or (statsUpdate_field su_strength newNode) 0,
       agility = num_or (agility (stats gameState)) 0
                    + opt_num_or (statsUpdate_field su_agility newNode) 0,
       intelligence = num_or (intelligence (stats gameState)) 0
                    + opt_num_or (statsUpdate_field su_intelligence newNode) 0,
       charisma = num_or (charisma (stats gameState)) 0
                    + opt_num_or (statsUpdate_field su_charisma newNode) 0 \<rparr>"

subsection \<open>Step B: combat and enemy state\<close>

record Encounter =
  nextInCombat :: bool
  nextEnemyName :: "string option"
  nextEnemyHealth :: "int option"
  nextEnemyMaxHealth :: "int option"
  nextEnemyAbilities :: "string list option"

text \<open>The test of the inner \<^verbatim>\<open>if\<close>: not in combat, or the payload names an enemy
  (a non-empty name) other than the current one.\<close>

definition startsEngagement :: "GameState \<Rightarrow> AdventureNode \<Rightarrow> bool" where
  "startsEngagement gameState newNode =
     (\<not> inCombat gameState
      \<or> (truthy_str (node_enemyName newNode) \<and> node_enemyName newNode \<noteq> enemyName gameState))"

definition combatStep :: "GameState \<Rightarrow> AdventureNode \<Rightarrow> Encounter" where
  "combatStep gameState newNode =
     (if truthy_bool (isCombat newNode) then
        (if startsEngagement gameState newNode then
           (let maxH = opt_num_or (node_enemyMaxHealth newNode) 100 in
            \<lparr> nextInCombat = True,
              nextEnemyName = Some (opt_str_or (node_enemyName newNode) ''Unknown Enemy''),
              nextEnemyHealth =
                (if node_enemyHealth newNode \<noteq> Undefined
                 then stored (node_enemyHealth newNode) else Some maxH),
              nextEnemyMaxHealth = Some maxH,
              nextEnemyAbilities = Some (opt_list_or (node_enemyAbilities newNode) []) \<rparr>)
         else
           \<lparr> nextInCombat = inCombat gameState,
             nextEnemyName = enemyName gameState,
             nextEnemyHealth =
               (if node_enemyHealth newNode \<noteq> Undefined
                then stored (node_enemyHealth newNode) else enemyHealth gameState),
             nextEnemyMaxHealth = enemyMaxHealth gameState,
             nextEnemyAbilities =
               (case node_enemyAbilities newNode of
                  Some abilities \<Rightarrow>
                    if length abilities > 0 then Some abilities else enemyAbilities gameState
                | None \<Rightarrow> enemyAbilities gameState) \<rparr>)
      else
        \<lparr> nextInCombat = False,
          nextEnemyName = None,
          nextEnemyHealth = None,
          nextEnemyMaxHealth = None,
          nextEnemyAbilities = None \<rparr>)"

subsection \<open>Step C: health and damage\<close>

definition healthChange :: "AdventureNode \<Rightarrow> int" where
  "healthChange newNode = opt_num_or (statsUpdate_field su_health newNode) 0"

text \<open>The two guards run one after the other, as in the source.\<close>

definition healthStep :: "GameState \<Rightarrow> AdventureNode \<Rightarrow> int" where
  "healthStep gameState newNode =
     (let newHealth = health gameState + healthChange newNode;
          newMaxHealth = maxHealth gameState;
          newHealth = (if newHealth > newMaxHealth then newMaxHealth else newHealth);
          newHealth = (if newHealth < 0 then 0 else newHealth)
      in newHealth)"

subsection \<open>Step D: experience and levelling\<close>

record Progress =
  currentXP :: int
  currentLevel :: int
  currentSkillPoints :: int
  leveledUp :: bool
  newHealth :: int
  newMaxHealth :: int

definition levelStep :: "GameState \<Rightarrow> AdventureNode \<Rightarrow> Progress" where
  "levelStep gameState newNode =
     (let xpAward = opt_num_or (xpAward newNode) 0;
          currentXP = num_or (xp gameState) 0 + xpAward;
          currentLevel = num_or (level gameState) 1;
          currentSkillPoints = num_or (skillPoints gameState) 0;
          xpThreshold = currentLevel * 100
      in if currentXP \<ge> xpThreshold then
           \<lparr> currentXP = currentXP - xpThreshold,
             currentLevel = currentLevel + 1,
             currentSkillPoints = currentSkillPoints + 1,
             leveledUp = True,
             newHealth = healthStep gameState newNode + 10,
             newMaxHealth = maxHealth gameState + 10 \<rparr>
         else
           \<lparr> currentXP = currentXP,
             currentLevel = currentLevel,
             currentSkillPoints = currentSkillPoints,
             leveledUp = False,
             newHealth = healthStep gameState newNode,
             newMaxHealth = maxHealth gameState \<rparr>)"

subsection \<open>Step E: codex\<close>

definition codexExists :: "CodexEntry list \<Rightarrow> CodexProposal \<Rightarrow> bool" where
  "codexExists currentCodex entry =
     list_ex (\<lambda>c. entry_id c = entry_id entry \<or> title c = title entry) currentCodex"

definition stampEntry :: "int \<Rightarrow> CodexProposal \<Rightarrow> CodexEntry" where
  "stampEntry turn entry =
     \<lparr> entry_id = entry_id entry, title = title entry, category = category entry,
       content = content entry, turnUnlocked = turn, isNew = Some True \<rparr>"

text \<open>Every proposed entry is tested against the codex of the incoming state
  (\<^verbatim>\<open>currentCodex\<close>), not against the entries admitted earlier in the same loop.\<close>

definition validNewEntries :: "GameState \<Rightarrow> AdventureNode \<Rightarrow> CodexEntry list" where
  "validNewEntries gameState newNode =
     map (stampEntry (turnCount gameState + 1))
       (filter (\<lambda>entry. \<not> codexExists (codex gameState) entry)
          (opt_list_or (newCodexEntries newNode) []))"

definition nextCodex :: "GameState \<Rightarrow> AdventureNode \<Rightarrow> CodexEntry list" where
  "nextCodex gameState newNode = codex gameState @ validNewEntries gameState newNode"

subsection \<open>Step F: relationships\<close>

definition calculateRelationshipStatus :: "int \<Rightarrow> string" where
  "calculateRelationshipStatus a =
     (if a < 10 then ''Enemy''
      else if a < 25 then ''Stranger''
      else if a < 45 then ''Acquaintance''
      else if a < 65 then ''Friend''
      else if a < 85 then ''Confidant''
      else ''Close Friend'')"

definition stickyStatuses :: "string list" where
  "stickyStatuses =
     [''Rival'', ''Crush'', ''Partner'', ''Nemesis'', ''Complicated'', ''Mentor'',
      ''Protege'', ''Ally'', ''Confidant'']"

text \<open>The branch for an NPC found in the roster.\<close>

definition updateExisting :: "NPC \<Rightarrow> RelationshipUpdate \<Rightarrow> NPC" where
  "updateExisting npc update =
     (let newAffinity = affinity npc + affinityChange update;
          newAffinity = max 0 (min 100 newAffinity);
          newStatus =
            (if \<not> truthy_str (newStatus update) then
               (if List.member stickyStatuses (status npc) then
                  (if newAffinity < 10 \<and> status npc \<noteq> ''Nemesis'' \<and> status npc \<noteq> ''Enemy''
                   then Some ''Enemy'' else Some (status npc))
                else Some (calculateRelationshipStatus newAffinity))
             else newStatus update)
      in npc\<lparr> affinity := newAffinity,
              status := opt_str_or newStatus (calculateRelationshipStatus newAffinity),
              npc_description := opt_str_or (npcDescription update) (npc_description npc) \<rparr>)"

text \<open>The branch for an NPC that is not in the roster yet.\<close>

definition newNPC :: "RelationshipUpdate \<Rightarrow> NPC" where
  "newNPC update =
     (let newAffinity = max 0 (min 100 (50 + affinityChange update))
      in \<lparr> npc_id = npcId update,
           npc_name = npcName update,
           npc_description = opt_str_or (npcDescription update) ''Newly met'',
           affinity = newAffinity,
           status = opt_str_or (newStatus update) (calculateRelationshipStatus newAffinity) \<rparr>)"

text \<open>The predicate of the \<^verbatim>\<open>findIndex\<close>: an NPC is the target of an instruction
  when the id or the name is the same.\<close>

definition targets :: "RelationshipUpdate \<Rightarrow> NPC \<Rightarrow> bool" where
  "targets update r = (npc_id r = npcId update \<or> npc_name r = npcName update)"

text \<open>The body of the \<^verbatim>\<open>forEach\<close>: the roster and the \<^verbatim>\<open>socialSuccess\<close> flag are
  the loop's state.\<close>

definition applyUpdate :: "RelationshipUpdate \<Rightarrow> NPC list \<times> bool \<Rightarrow> NPC list \<times> bool" where
  "applyUpdate update st =
     (let nextRelationships = fst st; socialSuccess = snd st in
      case findIndex (targets update) nextRelationships of
        Some index \<Rightarrow>
          (nextRelationships[index := updateExisting (nextRelationships ! index) update],
           socialSuccess \<or> affinityChange update > 5)
      | None \<Rightarrow>
          (nextRelationships @ [newNPC update],
           socialSuccess \<or> affinityChange update > 0))"

definition relationshipStep :: "GameState \<Rightarrow> AdventureNode \<Rightarrow> NPC list \<times> bool" where
  "relationshipStep gameState newNode =
     fold applyUpdate (opt_list_or (relationshipUpdates newNode) [])
       (relationships gameState, False)"

subsection \<open>Step I: the next game state\<close>

definition resolveTurn :: "GameState \<Rightarrow> AdventureNode \<Rightarrow> GameState" where
  "resolveTurn gameState newNode =
     (let enc = combatStep gameState newNode;
          prog = levelStep gameState newNode
      in gameState
           \<lparr> inventory := node_inventory newNode,
             quest := currentQuest newNode,
             location := locationName newNode,
             turnCount := turnCount gameState + 1,
             stats := newStats gameState newNode,
             health := newHealth prog,
             maxHealth := newMaxHealth prog,
             worldState := spread (worldState gameState) (opt_list_or (worldUpdates newNode) []),
             inCombat := nextInCombat enc,
             enemyName := nextEnemyName enc,
             enemyHealth := nextEnemyHealth enc,
             enemyMaxHealth := nextEnemyMaxHealth enc,
             enemyAbilities := nextEnemyAbilities enc,
             xp := currentXP prog,
             level := currentLevel prog,
             skillPoints := currentSkillPoints prog,
             unlockedSkills := unlockedSkills gameState,
             codex := nextCodex gameState newNode,
             relationships := fst (relationshipStep gameState newNode) \<rparr>)"

text \<open>A session after its start: the payloads of its turns, resolved in order.\<close>

definition runTurns :: "GameState \<Rightarrow> AdventureNode list \<Rightarrow> GameState" where
  "runTurns gameState turns = fold (\<lambda>newNode s. resolveTurn s newNode) turns gameState"

section \<open>Starting a game (App.tsx, handleStartGame)\<close>

definition defaultPersona :: PlayerPersona where
  "defaultPersona =
     \<lparr> persona_id = None, persona_name = ''Traveler'', gender = ''Unknown'',
       appearance = ''Unknown'', backstory = ''Unknown'', personality = ''Neutral'' \<rparr>"

definition initialStats :: "AdventureNode \<Rightarrow> PlayerStats" where
  "initialStats initialNode =
     \<lparr> strength = opt_num_or (statsUpdate_field su_strength initialNode) 5,
       agility = opt_num_or (statsUpdate_field su_agility initialNode) 5,
       intelligence = opt_num_or (statsUpdate_field su_intelligence initialNode) 5,
       charisma = opt_num_or (statsUpdate_field su_charisma initialNode) 5 \<rparr>"

definition initialCodex :: "AdventureNode \<Rightarrow> CodexEntry list" where
  "initialCodex initialNode = map (stampEntry 1) (opt_list_or (newCodexEntries initialNode) [])"

text \<open>The roster of a new game: one NPC pushed per instruction, the affinity
  \<^verbatim>\<open>50 + u.affinityChange\<close> as the source computes it.\<close>

definition initialNPC :: "RelationshipUpdate \<Rightarrow> NPC" where
  "initialNPC u =
     \<lparr> npc_id = npcId u,
       npc_name = npcName u,
       npc_description = opt_str_or (npcDescription u) ''Unknown'',
       affinity = 50 + affinityChange u,
       status = opt_str_or (newStatus u) (calculateRelationshipStatus (50 + affinityChange u)) \<rparr>"

definition initialRelationships :: "AdventureNode \<Rightarrow> NPC list" where
  "initialRelationships initialNode =
     (case relationshipUpdates initialNode of
        None \<Rightarrow> []
      | Some updates \<Rightarrow> map initialNPC updates)"

definition newGameState :: "string \<Rightarrow> PlayerPersona option \<Rightarrow> AdventureNode \<Rightarrow> GameState" where
  "newGameState genre0 persona0 initialNode =
     \<lparr> inventory = node_inventory initialNode,
       quest = currentQuest initialNode,
       location = locationName initialNode,
       genre = genre0,
       health = opt_num_or (statsUpdate_field su_health initialNode) 100,
       maxHealth = 100,
       turnCount = 1,
       stats = initialStats initialNode,
       worldState = opt_list_or (worldUpdates initialNode) [],
       inCombat = False,
       enemyName = None,
       enemyHealth = None,
       enemyMaxHealth = None,
       enemyAbilities = None,
       xp = 0,
       level = 1,
       skillPoints = 0,
       unlockedSkills = [],
       codex = initialCodex initialNode,
       relationships = initialRelationships initialNode,
       persona = (case persona0 of None \<Rightarrow> defaultPersona | Some p \<Rightarrow> p) \<rparr>"

section \<open>The component state and its handlers (App.tsx)\<close>

text \<open>The React state that \<^verbatim>\<open>handleStartGame\<close> and \<^verbatim>\<open>handleChoice\<close> set. The
  animation and notification timers (\<^verbatim>\<open>triggerEffect\<close>, \<^verbatim>\<open>setNotification\<close>) and the
  remembered start parameters touch neither the game state nor the history and are
  left out. The argument
  \<open>generated\<close> is the outcome of the awaited service call: \<^term>\<open>Inl\<close> the error it
  threw, \<^term>\<open>Inr\<close> the node it returned.\<close>

record App =
  app_isPlaying :: bool
  app_loading :: bool
  app_gameState :: "GameState option"
  app_history :: "AdventureNode list"
  app_error :: "string option"
  app_showSettings :: bool
  app_activeEvent :: "WorldEvent option"

definition errorMessage :: "js_error \<Rightarrow> string \<Rightarrow> string" where
  "errorMessage err d = (if message err = [] then d else message err)"

definition handleStartGame ::
    "App \<Rightarrow> string \<Rightarrow> PlayerPersona option \<Rightarrow> js_error + AdventureNode \<Rightarrow> App" where
  "handleStartGame app genre0 persona0 generated =
     (let app = app\<lparr> app_loading := True, app_error := None \<rparr>;
          app =
            (case generated of
               Inr initialNode \<Rightarrow>
                 app\<lparr> app_gameState := Some (newGameState genre0 persona0 initialNode),
                      app_history := [initialNode],
                      app_isPlaying := True \<rparr>
             | Inl err \<Rightarrow>
                 (let msg = errorMessage err ''Failed to start adventure'' in
                  if str_includes msg ''API Key'' \<or> str_includes msg ''Provider''
                  then app\<lparr> app_error := Some msg, app_showSettings := True \<rparr>
                  else app\<lparr> app_error := Some msg \<rparr>))
      in app\<lparr> app_loading := False \<rparr>)"

definition handleChoice :: "App \<Rightarrow> js_error + AdventureNode \<Rightarrow> App" where
  "handleChoice app generated =
     (case app_gameState app of
        None \<Rightarrow> app
      | Some gameState \<Rightarrow>
          (let app = app\<lparr> app_loading := True, app_error := None, app_activeEvent := None \<rparr>;
               app =
                 (case generated of
                    Inr newNode \<Rightarrow>
                      (let app =
                         (case opt_list_or (events newNode) [] of
                            [] \<Rightarrow> app
                          | evt # _ \<Rightarrow> app\<lparr> app_activeEvent := Some evt \<rparr>)
                       in app\<lparr> app_gameState := Some (resolveTurn gameState newNode),
                               app_history := app_history app @ [newNode] \<rparr>)
                  | Inl err \<Rightarrow>
                      (let msg = errorMessage err ''AI Error'' in
                       if str_includes msg ''API Key'' \<or> str_includes msg ''Provider''
                       then app\<lparr> app_error := Some msg, app_showSettings := True \<rparr>
                       else app\<lparr> app_error :=
                              Some (''The threads of fate are tangled. ('' @ msg @ '')'') \<rparr>))
           in app\<lparr> app_loading := False \<rparr>))"

section \<open>The response cache (services/geminiService.ts, generateAdventureNode)\<close>

text \<open>
  The fingerprint is \<^verbatim>\<open>JSON.stringify\<close> of an object with six string fields in a
  fixed order; the text it yields is never empty and is the same for two objects
  exactly when the six strings are the same, so the key is kept as the record of the
  six strings. \<^verbatim>\<open>responseCache\<close> is a \<^verbatim>\<open>Map\<close>, which iterates in insertion order: an
  association list, oldest entry first. \<^verbatim>\<open>Map.set\<close> overwrites a present key in place
  and appends an absent one, which is \<^const>\<open>AList.update\<close>; \<^verbatim>\<open>Map.delete\<close> is
  \<^const>\<open>AList.delete\<close>.
\<close>

record CacheKey =
  key_provider :: string
  key_model :: string
  key_state :: string
  key_last :: string
  key_summary :: string
  key_choice :: string

type_synonym responseCache = "(CacheKey \<times> AdventureNode) list"

definition CACHE_LIMIT :: nat where
  "CACHE_LIMIT = 50"

record Generation =
  returned :: "js_error + AdventureNode"
  cacheAfter :: responseCache
  generatorInvoked :: bool

text \<open>The outer \<^verbatim>\<open>catch\<close> rewrites one message and rethrows.\<close>

definition rethrow :: "js_error \<Rightarrow> js_error" where
  "rethrow err =
     (if message err = ''API_KEY_MISSING''
      then Error ''API Key is missing. Please check your settings.''
      else err)"

text \<open>\<open>response\<close> is what the provider call and the parse of its text come to if
  they run: \<^term>\<open>Inl\<close> when either throws, \<^term>\<open>Inr\<close> the parsed node. On a hit
  they do not run.\<close>

definition generateAdventureNode ::
    "responseCache \<Rightarrow> CacheKey \<Rightarrow> js_error + AdventureNode \<Rightarrow> Generation" where
  "generateAdventureNode cache cacheKey response =
     (case map_of cache cacheKey of
        Some node \<Rightarrow>
          \<lparr> returned = Inr node, cacheAfter = cache, generatorInvoked = False \<rparr>
      | None \<Rightarrow>
          (case response of
             Inl err \<Rightarrow>
               \<lparr> returned = Inl (rethrow err), cacheAfter = cache, generatorInvoked = True \<rparr>
           | Inr resultNode \<Rightarrow>
               (let cache =
                  (if length cache \<ge> CACHE_LIMIT then
                     (case cache of
                        [] \<Rightarrow> cache
                      | (firstKey, _) # _ \<Rightarrow> AList.delete firstKey cache)
                   else cache)
                in \<lparr> returned = Inr resultNode,
                     cacheAfter = AList.update cacheKey resultNode cache,
                     generatorInvoked = True \<rparr>)))"

text \<open>A session: the calls made one after the other on the shared cache.\<close>

fun runCalls :: "responseCache \<Rightarrow> (CacheKey \<times> (js_error + AdventureNode)) list \<Rightarrow> responseCache" where
  "runCalls cache [] = cache"
| "runCalls cache ((k, r) # calls) = runCalls (cacheAfter (generateAdventureNode cache k r)) calls"

section \<open>Concrete inputs\<close>

text \<open>A payload with the required fields only, and the state a new game starts in
  when the generator answers with it.\<close>

definition blankNode :: AdventureNode where
  "blankNode =
     \<lparr> storySegment = ''You wake in a forest.'', choices = [''Look around''],
       node_inventory = [], currentQuest = ''Find shelter'', locationName = ''Forest'',
       summary = None, statsUpdate = None, worldUpdates = None, isCombat = None,
       node_enemyName = None, node_enemyHealth = Undefined, node_enemyMaxHealth = None,
       node_enemyAbilities = None, xpAward = None, newCodexEntries = None,
       relationshipUpdates = None, events = None \<rparr>"

definition startState :: GameState where
  "startState = newGameState ''High Fantasy'' None blankNode"

definition healthDelta :: "int \<Rightarrow> StatsUpdate" where
  "healthDelta d =
     \<lparr> su_health = Some d, su_strength = None, su_agility = None,
       su_intelligence = None, su_charisma = None \<rparr>"

definition demoRoster :: "NPC list" where
  "demoRoster =
     [\<lparr> npc_id = ''kael'', npc_name = ''Kael'', npc_description = ''School rival'',
        affinity = 60, status = ''Rival'' \<rparr>,
      \<lparr> npc_id = ''mira'', npc_name = ''Mira'', npc_description = ''Neighbour'',
        affinity = 15, status = ''Crush'' \<rparr>,
      \<lparr> npc_id = ''tom'', npc_name = ''Tom'', npc_description = ''Innkeeper'',
        affinity = 20, status = ''Stranger'' \<rparr>]"

definition instruction :: "string \<Rightarrow> string \<Rightarrow> int \<Rightarrow> string option \<Rightarrow> RelationshipUpdate" where
  "instruction i n d st =
     \<lparr> npcId = i, npcName = n, npcDescription = None, affinityChange = d, newStatus = st \<rparr>"

definition wolfNode :: AdventureNode where
  "wolfNode =
     blankNode\<lparr> isCombat := Some True, node_enemyName := Some ''Wolf'',
                 node_enemyHealth := Value 40,
                 node_enemyAbilities := Some [''Bite'', ''Howl''] \<rparr>"





definition ambush :: AdventureNode where
  "ambush =
     blankNode\<lparr> isCombat := Some True, node_enemyHealth := Value 0,
                 node_enemyMaxHealth := Some 0 \<rparr>"

definition dragonLore :: CodexProposal where
  "dragonLore =
     \<lparr> entry_id = ''dragon'', title = ''The Red Dragon'', category = ''Lore'',
       content = ''A dragon sleeps under the mountain.'' \<rparr>"

definition elaraOpening :: AdventureNode where
  "elaraOpening =
     blankNode\<lparr> relationshipUpdates := Some [instruction ''elara'' ''Elara'' 60 None] \<rparr>"

definition freshApp :: App where
  "freshApp =
     \<lparr> app_isPlaying = False, app_loading = False, app_gameState = None,
       app_history = [], app_error = None, app_showSettings = False,
       app_activeEvent = None \<rparr>"

definition playingApp :: App where
  "playingApp = handleStartGame freshApp ''High Fantasy'' None (Inr blankNode)"

definition laterNode :: AdventureNode where
  "laterNode = blankNode\<lparr> storySegment := ''The forest is silent.'' \<rparr>"

text \<open>Fingerprints of one session that differ in the action only: \<open>wait\<close>,
  \<open>wait!\<close>, \<open>wait!!\<close> and so on; the calls that submit the actions \<open>lo\<close> to
  \<open>hi - 1\<close> in turn, each answered by the generator; and the cache that holds
  exactly their answers, oldest first.\<close>

definition actionKey :: "nat \<Rightarrow> CacheKey" where
  "actionKey i =
     \<lparr> key_provider = ''gemini'', key_model = ''gemini-2.5-flash'',
       key_state = ''Genre: High Fantasy | Loc: Forest'',
       key_last = ''You wake in a forest.'', key_summary = [],
       key_choice = ''wait'' @ replicate i (CHR ''!'') \<rparr>"

definition actionCalls :: "nat \<Rightarrow> nat \<Rightarrow> (CacheKey \<times> (js_error + AdventureNode)) list" where
  "actionCalls lo hi = map (\<lambda>i. (actionKey i, Inr blankNode)) [lo..<hi]"

definition cachedActions :: "nat \<Rightarrow> nat \<Rightarrow> responseCache" where
  "cachedActions lo hi = map (\<lambda>i. (actionKey i, blankNode)) [lo..<hi]"

text \<open>The number of entries from the one of key \<open>k\<close> to the newest: the entry
  itself and everything inserted after it.\<close>

definition entriesSince :: "CacheKey \<Rightarrow> responseCache \<Rightarrow> nat" where
  "entriesSince k cache = length (dropWhile (\<lambda>e. fst e \<noteq> k) cache)"

section \<open>Progression and health\<close>

text \<open>The level the step works with is the stored level, or 1 when the stored
  level is 0; the threshold and the result are computed from it.\<close>

lemma level_read_with_default:
  assumes "xp gs + opt_num_or (xpAward n) 0 \<ge> num_or (level gs) 1 * 100"
  shows "level (resolveTurn gs n) = num_or (level gs) 1 + 1
       \<and> xp (resolveTurn gs n) = xp gs + opt_num_or (xpAward n) 0 - num_or (level gs) 1 * 100"
  using assms by (simp add: resolveTurn_def levelStep_def num_or_def Let_def)

text \<open>
  Claim C1. A turn whose award brings the experience to the threshold
  \<open>level * 100\<close> or beyond raises the level by one, keeps the experience in excess
  of the threshold, grants one skill point and raises the maximum health by ten. The
  data model has \<open>level \<ge> 1\<close>; the theorem needs only that the stored level is not 0,
  which the source reads as a missing level (\<^verbatim>\<open>gameState.level || 1\<close>).
\<close>

theorem level_up_once:
  assumes "level gs \<noteq> 0" and "xpAward n = Some A" and "xp gs + A \<ge> level gs * 100"
  shows "level (resolveTurn gs n) = level gs + 1
       \<and> xp (resolveTurn gs n) = xp gs + A - level gs * 100
       \<and> skillPoints (resolveTurn gs n) = skillPoints gs + 1
       \<and> maxHealth (resolveTurn gs n) = maxHealth gs + 10"
  using assms by (simp add: resolveTurn_def levelStep_def opt_num_or_def num_or_def Let_def)

theorem level_up_once_witness:
  "level startState \<noteq> 0
   \<and> xpAward (blankNode\<lparr>xpAward := Some 120\<rparr>) = Some 120
   \<and> xp startState + 120 \<ge> level startState * 100
   \<and> level (resolveTurn startState (blankNode\<lparr>xpAward := Some 120\<rparr>)) = 2
   \<and> xp (resolveTurn startState (blankNode\<lparr>xpAward := Some 120\<rparr>)) = 20
   \<and> skillPoints (resolveTurn startState (blankNode\<lparr>xpAward := Some 120\<rparr>)) = 1
   \<and> maxHealth (resolveTurn startState (blankNode\<lparr>xpAward := Some 120\<rparr>)) = 110"
proof -
  have h1: "level startState \<noteq> 0"
    by (simp add: startState_def newGameState_def)
  have h2: "xpAward (blankNode\<lparr>xpAward := Some 120\<rparr>) = Some 120"
    by simp
  have h3: "xp startState + 120 \<ge> level startState * 100"
    by (simp add: startState_def newGameState_def)
  from level_up_once [OF h1 h2 h3] h1 h2 h3 show ?thesis
    by (simp add: startState_def newGameState_def)
qed

text \<open>
  Claim C2. From a state with \<open>0 \<le> health \<le> maxHealth\<close> the health step yields
  \<open>health + delta\<close> clamped to \<open>[0, maxHealth]\<close>: the maximum when the sum exceeds it,
  0 when the sum is negative. A level-up in the same turn adds 10 to both the clamped
  health and the maximum, and the next state satisfies \<open>0 \<le> health \<le> maxHealth\<close>
  again.
\<close>

theorem health_clamped:
  assumes "0 \<le> health gs" and "health gs \<le> maxHealth gs"
  shows "healthStep gs n = max 0 (min (maxHealth gs) (health gs + healthChange n))
       \<and> (health gs + healthChange n > maxHealth gs \<longrightarrow> healthStep gs n = maxHealth gs)
       \<and> (health gs + healthChange n < 0 \<longrightarrow> healthStep gs n = 0)
       \<and> health (resolveTurn gs n)
           = healthStep gs n + (if leveledUp (levelStep gs n) then 10 else 0)
       \<and> maxHealth (resolveTurn gs n)
           = maxHealth gs + (if leveledUp (levelStep gs n) then 10 else 0)
       \<and> 0 \<le> health (resolveTurn gs n)
       \<and> health (resolveTurn gs n) \<le> maxHealth (resolveTurn gs n)"
  using assms by (auto simp add: resolveTurn_def levelStep_def healthStep_def Let_def)

theorem health_clamped_witness:
  "0 \<le> health startState \<and> health startState \<le> maxHealth startState
   \<and> health startState + healthChange (blankNode\<lparr>statsUpdate := Some (healthDelta 20)\<rparr>)
       > maxHealth startState
   \<and> healthStep startState (blankNode\<lparr>statsUpdate := Some (healthDelta 20)\<rparr>) = 100
   \<and> health startState + healthChange (blankNode\<lparr>statsUpdate := Some (healthDelta (- 150))\<rparr>) < 0
   \<and> healthStep startState (blankNode\<lparr>statsUpdate := Some (healthDelta (- 150))\<rparr>) = 0
   \<and> health (resolveTurn startState (blankNode\<lparr>statsUpdate := Some (healthDelta (- 150))\<rparr>)) = 0
   \<and> leveledUp (levelStep startState
        (blankNode\<lparr>statsUpdate := Some (healthDelta 20), xpAward := Some 120\<rparr>))
   \<and> health (resolveTurn startState
        (blankNode\<lparr>statsUpdate := Some (healthDelta 20), xpAward := Some 120\<rparr>)) = 110
   \<and> maxHealth (resolveTurn startState
        (blankNode\<lparr>statsUpdate := Some (healthDelta 20), xpAward := Some 120\<rparr>)) = 110"
proof -
  have h1: "0 \<le> health startState"
    by (simp add: startState_def newGameState_def blankNode_def statsUpdate_field_def
        opt_num_or_def)
  have h2: "health startState \<le> maxHealth startState"
    by (simp add: startState_def newGameState_def blankNode_def statsUpdate_field_def
        opt_num_or_def)
  have lvl: "leveledUp (levelStep startState
        (blankNode\<lparr>statsUpdate := Some (healthDelta 20), xpAward := Some 120\<rparr>))"
    by (simp add: startState_def newGameState_def levelStep_def opt_num_or_def num_or_def)
  have over: "health startState
        + healthChange (blankNode\<lparr>statsUpdate := Some (healthDelta 20)\<rparr>) > maxHealth startState"
    by (simp add: startState_def newGameState_def blankNode_def statsUpdate_field_def
        opt_num_or_def num_or_def healthChange_def healthDelta_def)
  have under: "health startState
        + healthChange (blankNode\<lparr>statsUpdate := Some (healthDelta (- 150))\<rparr>) < 0"
    by (simp add: startState_def newGameState_def blankNode_def statsUpdate_field_def
        opt_num_or_def num_or_def healthChange_def healthDelta_def)
  have stay: "healthStep startState
        (blankNode\<lparr>statsUpdate := Some (healthDelta 20), xpAward := Some 120\<rparr>) = 100"
    by (simp add: startState_def newGameState_def blankNode_def statsUpdate_field_def
        opt_num_or_def num_or_def healthChange_def healthDelta_def healthStep_def)
  have mx: "maxHealth startState = 100"
    by (simp add: startState_def newGameState_def)
  have nolvl: "\<not> leveledUp (levelStep startState
        (blankNode\<lparr>statsUpdate := Some (healthDelta (- 150))\<rparr>))"
    by (simp add: startState_def newGameState_def blankNode_def levelStep_def opt_num_or_def
        num_or_def)
  from health_clamped [OF h1 h2, of "blankNode\<lparr>statsUpdate := Some (healthDelta 20)\<rparr>"]
    health_clamped [OF h1 h2, of "blankNode\<lparr>statsUpdate := Some (healthDelta (- 150))\<rparr>"]
    health_clamped [OF h1 h2,
      of "blankNode\<lparr>statsUpdate := Some (healthDelta 20), xpAward := Some 120\<rparr>"]
    h1 h2 lvl over under stay mx nolvl
  show ?thesis by simp
qed

text \<open>
  Claim C3, as stated, fails: the level-up is a single conditional, so an award that
  crosses two thresholds leaves the experience at or above the new threshold. The
  state \<^verbatim>\<open>handleStartGame\<close> sets is at level 1 with no experience; an award of 300
  leads to level 2 with 200 experience, and the threshold of level 2 is 200.
\<close>

theorem xp_range_counterexample:
  "app_gameState (handleStartGame freshApp ''High Fantasy'' None (Inr blankNode)) = Some startState
   \<and> xp startState = 0 \<and> level startState = 1
   \<and> xp (resolveTurn startState (blankNode\<lparr>xpAward := Some 300\<rparr>)) = 200
   \<and> level (resolveTurn startState (blankNode\<lparr>xpAward := Some 300\<rparr>)) = 2
   \<and> \<not> xp (resolveTurn startState (blankNode\<lparr>xpAward := Some 300\<rparr>))
        < level (resolveTurn startState (blankNode\<lparr>xpAward := Some 300\<rparr>)) * 100"
  by (simp add: handleStartGame_def startState_def newGameState_def resolveTurn_def
      levelStep_def opt_num_or_def num_or_def Let_def)

text \<open>A turn with a non-negative award keeps the level at 1 or more and the
  experience at 0 or more, so every state that a new game reaches through such turns
  has both.\<close>

lemma turn_keeps_progress_bounds:
  assumes "1 \<le> level gs" and "0 \<le> xp gs" and "0 \<le> opt_num_or (xpAward n) 0"
  shows "1 \<le> level (resolveTurn gs n) \<and> 0 \<le> xp (resolveTurn gs n)"
  using assms by (auto simp add: resolveTurn_def levelStep_def num_or_def Let_def)

lemma runTurns_progress_bounds:
  "1 \<le> level gs \<Longrightarrow> 0 \<le> xp gs \<Longrightarrow> \<forall>m \<in> set turns. 0 \<le> opt_num_or (xpAward m) 0 \<Longrightarrow>
     1 \<le> level (runTurns gs turns) \<and> 0 \<le> xp (runTurns gs turns)"
proof (induction turns arbitrary: gs)
  case Nil
  then show ?case by (simp add: runTurns_def)
next
  case (Cons m turns)
  from Cons.prems have "1 \<le> level (resolveTurn gs m) \<and> 0 \<le> xp (resolveTurn gs m)"
    by (intro turn_keeps_progress_bounds) simp_all
  with Cons.IH [of "resolveTurn gs m"] Cons.prems(3) show ?case
    by (simp add: runTurns_def)
qed

lemma played_state_progress_bounds:
  assumes "\<forall>m \<in> set turns. 0 \<le> opt_num_or (xpAward m) 0"
  shows "1 \<le> level (runTurns (newGameState g p opening) turns)
       \<and> 0 \<le> xp (runTurns (newGameState g p opening) turns)"
  using assms by (intro runTurns_progress_bounds) (simp_all add: newGameState_def)

text \<open>
  Claim C3, amended. From a state whose experience is not negative, as every state
  is that a new game reaches through non-negative awards, a turn whose non-negative
  award crosses at most one threshold
  (\<open>xp + award < level * 100 + (level + 1) * 100\<close>) leaves the experience in
  \<open>[0, level' * 100)\<close> for the resulting level \<open>level'\<close>. The experience before
  the turn may be at or above its threshold.
\<close>

theorem xp_range_single_threshold:
  assumes "0 \<le> xp gs"
    and "0 \<le> opt_num_or (xpAward n) 0"
    and "xp gs + opt_num_or (xpAward n) 0 < level gs * 100 + (level gs + 1) * 100"
  shows "0 \<le> xp (resolveTurn gs n)
       \<and> xp (resolveTurn gs n) < level (resolveTurn gs n) * 100"
  using assms by (auto simp add: resolveTurn_def levelStep_def num_or_def Let_def)

theorem xp_range_single_threshold_witness:
  "xp (resolveTurn startState (blankNode\<lparr>xpAward := Some 300\<rparr>)) = 200
   \<and> level (resolveTurn startState (blankNode\<lparr>xpAward := Some 300\<rparr>)) = 2
   \<and> 0 \<le> xp (resolveTurn startState (blankNode\<lparr>xpAward := Some 300\<rparr>))
   \<and> 0 \<le> opt_num_or (xpAward (blankNode\<lparr>xpAward := Some 50\<rparr>)) 0
   \<and> xp (resolveTurn startState (blankNode\<lparr>xpAward := Some 300\<rparr>))
         + opt_num_or (xpAward (blankNode\<lparr>xpAward := Some 50\<rparr>)) 0
       < level (resolveTurn startState (blankNode\<lparr>xpAward := Some 300\<rparr>)) * 100
         + (level (resolveTurn startState (blankNode\<lparr>xpAward := Some 300\<rparr>)) + 1) * 100
   \<and> xp (resolveTurn (resolveTurn startState (blankNode\<lparr>xpAward := Some 300\<rparr>))
            (blankNode\<lparr>xpAward := Some 50\<rparr>)) = 50
   \<and> level (resolveTurn (resolveTurn startState (blankNode\<lparr>xpAward := Some 300\<rparr>))
            (blankNode\<lparr>xpAward := Some 50\<rparr>)) = 3
   \<and> xp (resolveTurn startState (blankNode\<lparr>xpAward := Some 250\<rparr>)) = 150
   \<and> level (resolveTurn startState (blankNode\<lparr>xpAward := Some 250\<rparr>)) = 2"
proof -
  define crossed where "crossed = resolveTurn startState (blankNode\<lparr>xpAward := Some 300\<rparr>)"
  have c: "xp crossed = 200" "level crossed = 2"
    by (simp_all add: crossed_def startState_def newGameState_def resolveTurn_def levelStep_def
        opt_num_or_def num_or_def Let_def)
  have a: "opt_num_or (Some 50) 0 = 50" "opt_num_or (Some 250) 0 = 250"
    by (simp_all add: opt_num_or_def num_or_def)
  have h1: "0 \<le> xp crossed" and h2: "0 \<le> opt_num_or (xpAward (blankNode\<lparr>xpAward := Some 50\<rparr>)) 0"
    and h3: "xp crossed + opt_num_or (xpAward (blankNode\<lparr>xpAward := Some 50\<rparr>)) 0
               < level crossed * 100 + (level crossed + 1) * 100"
    by (simp_all add: c a)
  have v: "xp (resolveTurn crossed (blankNode\<lparr>xpAward := Some 50\<rparr>)) = 50
       \<and> level (resolveTurn crossed (blankNode\<lparr>xpAward := Some 50\<rparr>)) = 3"
    by (simp add: c a resolveTurn_def levelStep_def num_or_def Let_def)
  have s0: "0 \<le> xp startState" "xp startState = 0" "level startState = 1"
    by (simp_all add: startState_def newGameState_def)
  have w: "xp (resolveTurn startState (blankNode\<lparr>xpAward := Some 250\<rparr>)) = 150
       \<and> level (resolveTurn startState (blankNode\<lparr>xpAward := Some 250\<rparr>)) = 2"
    by (simp add: s0 a resolveTurn_def levelStep_def num_or_def Let_def)
  from xp_range_single_threshold [OF h1 h2 h3]
    xp_range_single_threshold [OF s0(1), of "blankNode\<lparr>xpAward := Some 250\<rparr>"]
    c a h1 h2 h3 v w
  show ?thesis unfolding crossed_def by simp
qed

section \<open>Relationships\<close>

lemma findIndex_Some:
  "findIndex p xs = Some i \<Longrightarrow> i < length xs \<and> p (xs ! i)"
proof (induction xs arbitrary: i)
  case Nil
  then show ?case by simp
next
  case (Cons x xs)
  show ?case
  proof (cases "p x")
    case True
    with Cons.prems show ?thesis by simp
  next
    case False
    with Cons.prems obtain j where j: "findIndex p xs = Some j" "i = Suc j"
      by auto
    with Cons.IH [OF j(1)] show ?thesis by simp
  qed
qed

lemma applyUpdate_existing:
  assumes "findIndex (targets u) rels = Some i"
  shows "fst (applyUpdate u (rels, flag)) ! i = updateExisting (rels ! i) u"
  using assms findIndex_Some [OF assms] by (simp add: applyUpdate_def)

lemma sticky_set:
  "set stickyStatuses = {''Rival'', ''Crush'', ''Partner'', ''Nemesis'', ''Complicated'',
                        ''Mentor'', ''Protege'', ''Ally'', ''Confidant''}"
  by (simp add: stickyStatuses_def)

lemma sticky_nonempty: "s \<in> set stickyStatuses \<Longrightarrow> s \<noteq> []"
  by (auto simp add: stickyStatuses_def)

lemma calculateRelationshipStatus_nonempty: "calculateRelationshipStatus a \<noteq> []"
  by (simp add: calculateRelationshipStatus_def)

lemma updateExisting_affinity:
  "affinity (updateExisting npc u) = max 0 (min 100 (affinity npc + affinityChange u))"
  by (simp add: updateExisting_def Let_def)

lemma updateExisting_explicit:
  "newStatus u = Some st \<Longrightarrow> st \<noteq> [] \<Longrightarrow> status (updateExisting npc u) = st"
  by (simp add: updateExisting_def Let_def truthy_str_def opt_str_or_def)

lemma updateExisting_sticky:
  assumes "\<not> truthy_str (newStatus u)" and "status npc \<in> set stickyStatuses"
  shows "status (updateExisting npc u) =
           (if max 0 (min 100 (affinity npc + affinityChange u)) < 10
               \<and> status npc \<noteq> ''Nemesis'' \<and> status npc \<noteq> ''Enemy''
            then ''Enemy'' else status npc)"
  using assms sticky_nonempty [OF assms(2)]
  by (simp add: updateExisting_def Let_def opt_str_or_def)

lemma updateExisting_plain:
  assumes "\<not> truthy_str (newStatus u)" and "status npc \<notin> set stickyStatuses"
  shows "status (updateExisting npc u) =
           calculateRelationshipStatus (max 0 (min 100 (affinity npc + affinityChange u)))"
  using assms calculateRelationshipStatus_nonempty
  by (simp add: updateExisting_def Let_def opt_str_or_def)

text \<open>
  Claim C4. For an NPC found in the roster the new affinity is the old one plus the
  change, clamped to \<open>[0, 100]\<close>, and the new status follows the precedence: a
  \<^verbatim>\<open>newStatus\<close> of the instruction is used verbatim; otherwise a sticky current status
  is kept, except that it becomes \<open>Enemy\<close> when the new affinity is below 10 and the
  current status is neither \<open>Nemesis\<close> nor \<open>Enemy\<close>; otherwise the status is read
  from the new affinity by the thresholds 10, 25, 45, 65 and 85. The source tests
  the presence of \<^verbatim>\<open>newStatus\<close> by truthiness, so an empty string counts as none
  supplied.
\<close>

theorem status_precedence:
  assumes found: "findIndex (targets u) rels = Some i"
    and npc: "npc = rels ! i"
    and npc': "npc' = fst (applyUpdate u (rels, flag)) ! i"
    and a': "a' = max 0 (min 100 (affinity npc + affinityChange u))"
  shows "affinity npc' = a'
    \<and> (\<forall>st. newStatus u = Some st \<and> st \<noteq> [] \<longrightarrow> status npc' = st)
    \<and> (\<not> truthy_str (newStatus u) \<longrightarrow>
         status npc \<in> {''Rival'', ''Crush'', ''Partner'', ''Nemesis'', ''Complicated'',
                        ''Mentor'', ''Protege'', ''Ally'', ''Confidant''} \<longrightarrow>
         status npc' =
           (if a' < 10 \<and> status npc \<noteq> ''Nemesis'' \<and> status npc \<noteq> ''Enemy''
            then ''Enemy'' else status npc))
    \<and> (\<not> truthy_str (newStatus u) \<longrightarrow>
         status npc \<notin> {''Rival'', ''Crush'', ''Partner'', ''Nemesis'', ''Complicated'',
                        ''Mentor'', ''Protege'', ''Ally'', ''Confidant''} \<longrightarrow>
         status npc' =
           (if a' < 10 then ''Enemy'' else if a' < 25 then ''Stranger''
            else if a' < 45 then ''Acquaintance'' else if a' < 65 then ''Friend''
            else if a' < 85 then ''Confidant'' else ''Close Friend''))"
proof -
  have upd: "npc' = updateExisting npc u"
    using applyUpdate_existing [OF found] npc npc' by simp
  have aff: "affinity npc' = a'"
    unfolding upd a' by (rule updateExisting_affinity)
  have explicit: "\<forall>st. newStatus u = Some st \<and> st \<noteq> [] \<longrightarrow> status npc' = st"
    unfolding upd using updateExisting_explicit by blast
  have sticky: "\<not> truthy_str (newStatus u) \<longrightarrow>
         status npc \<in> set stickyStatuses \<longrightarrow>
         status npc' =
           (if a' < 10 \<and> status npc \<noteq> ''Nemesis'' \<and> status npc \<noteq> ''Enemy''
            then ''Enemy'' else status npc)"
    unfolding upd a' using updateExisting_sticky by blast
  have plain: "\<not> truthy_str (newStatus u) \<longrightarrow>
         status npc \<notin> set stickyStatuses \<longrightarrow>
         status npc' =
           (if a' < 10 then ''Enemy'' else if a' < 25 then ''Stranger''
            else if a' < 45 then ''Acquaintance'' else if a' < 65 then ''Friend''
            else if a' < 85 then ''Confidant'' else ''Close Friend'')"
    unfolding upd a' using updateExisting_plain [of u npc]
    by (simp add: calculateRelationshipStatus_def)
  from aff explicit sticky plain show ?thesis
    unfolding sticky_set by blast
qed

theorem status_precedence_witness:
  "findIndex (targets (instruction ''kael'' ''Kael'' (- 20) None)) demoRoster = Some 0
   \<and> affinity (fst (applyUpdate (instruction ''kael'' ''Kael'' (- 20) None) (demoRoster, False)) ! 0) = 40
   \<and> status (fst (applyUpdate (instruction ''kael'' ''Kael'' (- 20) None) (demoRoster, False)) ! 0) = ''Rival''
   \<and> findIndex (targets (instruction ''mira'' ''Mira'' (- 10) None)) demoRoster = Some 1
   \<and> affinity (fst (applyUpdate (instruction ''mira'' ''Mira'' (- 10) None) (demoRoster, False)) ! 1) = 5
   \<and> status (fst (applyUpdate (instruction ''mira'' ''Mira'' (- 10) None) (demoRoster, False)) ! 1) = ''Enemy''
   \<and> findIndex (targets (instruction ''tom'' ''Tom'' 30 None)) demoRoster = Some 2
   \<and> affinity (fst (applyUpdate (instruction ''tom'' ''Tom'' 30 None) (demoRoster, False)) ! 2) = 50
   \<and> status (fst (applyUpdate (instruction ''tom'' ''Tom'' 30 None) (demoRoster, False)) ! 2) = ''Friend''
   \<and> findIndex (targets (instruction ''tom'' ''Tom'' 0 (Some ''Mentor''))) demoRoster = Some 2
   \<and> status (fst (applyUpdate (instruction ''tom'' ''Tom'' 0 (Some ''Mentor'')) (demoRoster, False)) ! 2)
       = ''Mentor''"
proof -
  have f1: "findIndex (targets (instruction ''kael'' ''Kael'' (- 20) None)) demoRoster = Some 0"
    by (simp add: targets_def instruction_def demoRoster_def)
  have f2: "findIndex (targets (instruction ''mira'' ''Mira'' (- 10) None)) demoRoster = Some 1"
    by (simp add: targets_def instruction_def demoRoster_def)
  have f3: "findIndex (targets (instruction ''tom'' ''Tom'' 30 None)) demoRoster = Some 2"
    by (simp add: targets_def instruction_def demoRoster_def)
  have f4: "findIndex (targets (instruction ''tom'' ''Tom'' 0 (Some ''Mentor''))) demoRoster = Some 2"
    by (simp add: targets_def instruction_def demoRoster_def)
  note t1 = status_precedence [OF f1 refl refl refl, where flag = False]
    and t2 = status_precedence [OF f2 refl refl refl, where flag = False]
    and t3 = status_precedence [OF f3 refl refl refl, where flag = False]
    and t4 = status_precedence [OF f4 refl refl refl, where flag = False]
  have c1: "affinity (fst (applyUpdate (instruction ''kael'' ''Kael'' (- 20) None) (demoRoster, False)) ! 0) = 40
      \<and> status (fst (applyUpdate (instruction ''kael'' ''Kael'' (- 20) None) (demoRoster, False)) ! 0) = ''Rival''"
    using t1 by (simp add: demoRoster_def instruction_def truthy_str_def)
  have c2: "affinity (fst (applyUpdate (instruction ''mira'' ''Mira'' (- 10) None) (demoRoster, False)) ! 1) = 5
      \<and> status (fst (applyUpdate (instruction ''mira'' ''Mira'' (- 10) None) (demoRoster, False)) ! 1) = ''Enemy''"
    using t2 by (simp add: demoRoster_def instruction_def truthy_str_def)
  have c3: "affinity (fst (applyUpdate (instruction ''tom'' ''Tom'' 30 None) (demoRoster, False)) ! 2) = 50
      \<and> status (fst (applyUpdate (instruction ''tom'' ''Tom'' 30 None) (demoRoster, False)) ! 2) = ''Friend''"
    using t3 by (simp add: demoRoster_def instruction_def truthy_str_def)
  have c4: "status (fst (applyUpdate (instruction ''tom'' ''Tom'' 0 (Some ''Mentor'')) (demoRoster, False)) ! 2)
       = ''Mentor''"
    using t4 by (simp add: demoRoster_def instruction_def truthy_str_def)
  from f1 f2 f3 f4 c1 c2 c3 c4 show ?thesis by simp
qed


text \<open>On the turn path every affinity written is clamped, so a roster within
  \<open>[0, 100]\<close> stays within it.\<close>

lemma updateExisting_range:
  "0 \<le> affinity (updateExisting npc u) \<and> affinity (updateExisting npc u) \<le> 100"
  by (simp add: updateExisting_def Let_def)

lemma newNPC_range:
  "affinity (newNPC u) = max 0 (min 100 (50 + affinityChange u))
   \<and> 0 \<le> affinity (newNPC u) \<and> affinity (newNPC u) \<le> 100"
  by (simp add: newNPC_def Let_def)

lemma applyUpdate_range:
  assumes "\<forall>r \<in> set rels. 0 \<le> affinity r \<and> affinity r \<le> 100"
  shows "\<forall>r \<in> set (fst (applyUpdate u (rels, flag))). 0 \<le> affinity r \<and> affinity r \<le> 100"
proof (cases "findIndex (targets u) rels")
  case None
  with assms newNPC_range [of u] show ?thesis
    by (auto simp add: applyUpdate_def)
next
  case (Some i)
  have "set (rels[i := updateExisting (rels ! i) u])
          \<subseteq> insert (updateExisting (rels ! i) u) (set rels)"
    by (rule set_update_subset_insert)
  with assms updateExisting_range [of "rels ! i" u] Some show ?thesis
    by (auto simp add: applyUpdate_def)
qed

lemma fold_applyUpdate_range:
  "\<forall>r \<in> set (fst st). 0 \<le> affinity r \<and> affinity r \<le> 100 \<Longrightarrow>
   \<forall>r \<in> set (fst (fold applyUpdate us st)). 0 \<le> affinity r \<and> affinity r \<le> 100"
proof (induction us arbitrary: st)
  case Nil
  then show ?case by simp
next
  case (Cons u us)
  obtain rels flag where st: "st = (rels, flag)" by (cases st)
  from Cons.prems st applyUpdate_range [of rels u flag]
  have "\<forall>r \<in> set (fst (applyUpdate u st)). 0 \<le> affinity r \<and> affinity r \<le> 100"
    by simp
  from Cons.IH [OF this] show ?case by simp
qed

lemma turn_keeps_affinity_range:
  assumes "\<forall>r \<in> set (relationships gs). 0 \<le> affinity r \<and> affinity r \<le> 100"
  shows "\<forall>r \<in> set (relationships (resolveTurn gs n)). 0 \<le> affinity r \<and> affinity r \<le> 100"
  using fold_applyUpdate_range [of "(relationships gs, False)"] assms
  by (simp add: resolveTurn_def relationshipStep_def Let_def)

text \<open>
  Claim C6 fails on the start of a game: \<^verbatim>\<open>handleStartGame\<close> seeds an NPC with
  \<^verbatim>\<open>50 + u.affinityChange\<close> and no clamp, where the new-NPC branch of the turn
  resolver clamps the same sum. An opening payload with one instruction of
  affinity change 60 gives an NPC of affinity 110.
\<close>

theorem start_game_affinity_unclamped:
  "app_gameState (handleStartGame freshApp ''High Fantasy'' None (Inr elaraOpening))
     = Some (newGameState ''High Fantasy'' None elaraOpening)
   \<and> map affinity (relationships (newGameState ''High Fantasy'' None elaraOpening)) = [110]"
  by (simp add: handleStartGame_def newGameState_def initialRelationships_def initialNPC_def
      elaraOpening_def instruction_def Let_def)

section \<open>Combat\<close>




text \<open>
  Claim C10. On a turn that starts an engagement, a payload enemy health of 0 is
  kept as 0 (its presence is tested against \<^verbatim>\<open>undefined\<close>), a payload maximum of 0
  is replaced by 100 like a missing one (\<^verbatim>\<open>||\<close>), and a missing enemy name becomes
  \<open>Unknown Enemy\<close>.
\<close>

theorem new_engagement_defaults:
  assumes "truthy_bool (isCombat n)"
    and "\<not> inCombat gs \<or> (truthy_str (node_enemyName n) \<and> node_enemyName n \<noteq> enemyName gs)"
  shows "(node_enemyHealth n = Value 0 \<longrightarrow> enemyHealth (resolveTurn gs n) = Some 0)
       \<and> (node_enemyMaxHealth n = Some 0 \<longrightarrow> enemyMaxHealth (resolveTurn gs n) = Some 100)
       \<and> (node_enemyMaxHealth n = None \<longrightarrow> enemyMaxHealth (resolveTurn gs n) = Some 100)
       \<and> (node_enemyName n = None \<longrightarrow> enemyName (resolveTurn gs n) = Some ''Unknown Enemy'')"
  using assms
  by (auto simp add: resolveTurn_def combatStep_def startsEngagement_def Let_def opt_num_or_def
      num_or_def opt_str_or_def)

theorem new_engagement_defaults_witness:
  "truthy_bool (isCombat ambush) \<and> \<not> inCombat startState
   \<and> node_enemyHealth ambush = Value 0 \<and> enemyHealth (resolveTurn startState ambush) = Some 0
   \<and> node_enemyMaxHealth ambush = Some 0
   \<and> enemyMaxHealth (resolveTurn startState ambush) = Some 100
   \<and> node_enemyName ambush = None
   \<and> enemyName (resolveTurn startState ambush) = Some ''Unknown Enemy''
   \<and> node_enemyMaxHealth wolfNode = None \<and> enemyMaxHealth (resolveTurn startState wolfNode) = Some 100"
proof -
  have h: "truthy_bool (isCombat ambush)" "node_enemyHealth ambush = Value 0"
    "node_enemyMaxHealth ambush = Some 0" "node_enemyName ambush = None"
    by (simp_all add: ambush_def blankNode_def truthy_bool_def)
  have w: "truthy_bool (isCombat wolfNode)" "node_enemyMaxHealth wolfNode = None"
    by (simp_all add: wolfNode_def blankNode_def truthy_bool_def)
  have idle: "\<not> inCombat startState \<or>
      (truthy_str (node_enemyName ambush) \<and> node_enemyName ambush \<noteq> enemyName startState)"
    "\<not> inCombat startState \<or>
      (truthy_str (node_enemyName wolfNode) \<and> node_enemyName wolfNode \<noteq> enemyName startState)"
    by (simp_all add: startState_def newGameState_def)
  from new_engagement_defaults [OF h(1) idle(1)] new_engagement_defaults [OF w(1) idle(2)] h w
  show ?thesis by (simp add: startState_def newGameState_def)
qed

section \<open>Codex\<close>

text \<open>What holds of the codex step: an admitted entry carries the number of the
  turn being resolved and the new flag, no entry of the incoming codex shares its id
  or its title, and the incoming codex is a prefix of the next one.\<close>

lemma validNewEntries_admitted:
  assumes "e \<in> set (validNewEntries gs n)"
  shows "turnUnlocked e = turnCount gs + 1 \<and> isNew e = Some True
       \<and> (\<forall>c \<in> set (codex gs). entry_id c \<noteq> entry_id e \<and> title c \<noteq> title e)"
  using assms
  by (auto simp add: validNewEntries_def stampEntry_def codexExists_def list_ex_iff)

lemma codex_append_only:
  "codex (resolveTurn gs n) = codex gs @ validNewEntries gs n"
  by (simp add: resolveTurn_def nextCodex_def Let_def)

text \<open>
  Claim C7 fails on uniqueness: a proposed entry is compared with the incoming codex
  only, not with the entries admitted before it from the same payload, so a payload
  that proposes the same entry twice puts both into an empty codex. The source's own
  comment reads "Deduplicate based on ID or exact Title match", and the codex view
  keys and selects entries by id.
\<close>

theorem codex_duplicate_in_one_payload:
  "codex startState = []
   \<and> map entry_id
       (codex (resolveTurn startState
                 (blankNode\<lparr> newCodexEntries := Some [dragonLore, dragonLore] \<rparr>)))
     = [''dragon'', ''dragon'']
   \<and> \<not> distinct
       (map entry_id
          (codex (resolveTurn startState
                    (blankNode\<lparr> newCodexEntries := Some [dragonLore, dragonLore] \<rparr>))))"
  by (simp add: startState_def newGameState_def initialCodex_def blankNode_def opt_list_or_def
      resolveTurn_def nextCodex_def validNewEntries_def codexExists_def stampEntry_def
      dragonLore_def Let_def)


section \<open>A failed turn\<close>

text \<open>
  Claim C9. When the awaited service call throws (the provider call or the parse of
  its answer failed), \<^verbatim>\<open>handleChoice\<close> leaves the game state and the history as
  they were; a failure on a cache miss reaches the handler as an error and leaves the
  cache as it was; and the game state or the history change only when the call
  returned a node.
\<close>

theorem failed_turn_keeps_state:
  "app_gameState (handleChoice app (Inl err)) = app_gameState app
   \<and> app_history (handleChoice app (Inl err)) = app_history app
   \<and> (map_of cache key = None \<longrightarrow>
        returned (generateAdventureNode cache key (Inl err)) = Inl (rethrow err)
      \<and> cacheAfter (generateAdventureNode cache key (Inl err)) = cache)
   \<and> (app_gameState (handleChoice app generated) \<noteq> app_gameState app
        \<or> app_history (handleChoice app generated) \<noteq> app_history app
      \<longrightarrow> (\<exists>node. generated = Inr node))"
proof -
  have unchanged: "app_gameState (handleChoice app (Inl e)) = app_gameState app
      \<and> app_history (handleChoice app (Inl e)) = app_history app" for e
    by (simp add: handleChoice_def Let_def split: option.split)
  have gen: "map_of cache key = None \<longrightarrow>
        returned (generateAdventureNode cache key (Inl err)) = Inl (rethrow err)
      \<and> cacheAfter (generateAdventureNode cache key (Inl err)) = cache"
    by (simp add: generateAdventureNode_def)
  have only: "app_gameState (handleChoice app generated) \<noteq> app_gameState app
        \<or> app_history (handleChoice app generated) \<noteq> app_history app
      \<longrightarrow> (\<exists>node. generated = Inr node)"
    using unchanged by (cases generated) auto
  from unchanged [of err] gen only show ?thesis by blast
qed

theorem failed_turn_keeps_state_witness:
  "app_gameState playingApp = Some startState \<and> app_history playingApp = [blankNode]
   \<and> app_gameState (handleChoice playingApp (Inl (Error ''Network Error''))) = Some startState
   \<and> app_history (handleChoice playingApp (Inl (Error ''Network Error''))) = [blankNode]
   \<and> map_of ([] :: responseCache) (actionKey 0) = None
   \<and> returned (generateAdventureNode [] (actionKey 0) (Inl (Error ''Network Error'')))
       = Inl (Error ''Network Error'')
   \<and> app_history (handleChoice playingApp (Inr laterNode)) \<noteq> app_history playingApp"
proof -
  have p: "app_gameState playingApp = Some startState \<and> app_history playingApp = [blankNode]"
    by (simp add: playingApp_def handleStartGame_def startState_def Let_def)
  have m: "map_of ([] :: responseCache) (actionKey 0) = None"
    by simp
  have s: "app_history (handleChoice playingApp (Inr laterNode)) \<noteq> app_history playingApp"
    using p by (simp add: handleChoice_def Let_def split: list.split)
  from failed_turn_keeps_state
         [of playingApp "Error ''Network Error''" "[]" "actionKey 0" "Inr laterNode"] p m s
  show ?thesis by (simp add: rethrow_def)
qed

section \<open>Response cache\<close>

text \<open>The three outcomes of a call: a hit, a failure on a miss, and an answer on
  a miss, which is stored after the oldest entry has made room for it.\<close>

lemma generate_hit:
  "map_of cache k = Some node \<Longrightarrow>
     generateAdventureNode cache k r
       = \<lparr> returned = Inr node, cacheAfter = cache, generatorInvoked = False \<rparr>"
  by (simp add: generateAdventureNode_def)

lemma generate_failure:
  "map_of cache k = None \<Longrightarrow>
     generateAdventureNode cache k (Inl err)
       = \<lparr> returned = Inl (rethrow err), cacheAfter = cache, generatorInvoked = True \<rparr>"
  by (simp add: generateAdventureNode_def)

lemma generate_miss:
  "map_of cache k = None \<Longrightarrow>
     generateAdventureNode cache k (Inr node)
       = \<lparr> returned = Inr node,
           cacheAfter =
             AList.update k node
               (if length cache \<ge> CACHE_LIMIT
                then (case cache of [] \<Rightarrow> cache | (firstKey, _) # _ \<Rightarrow> AList.delete firstKey cache)
                else cache),
           generatorInvoked = True \<rparr>"
  by (simp add: generateAdventureNode_def Let_def)

lemma update_absent:
  "map_of al k = None \<Longrightarrow> AList.update k v al = al @ [(k, v)]"
  by (induction al) (auto split: if_splits)

lemma evict_oldest:
  assumes "distinct (map fst cache)" and "length cache \<ge> CACHE_LIMIT" and "map_of cache k = None"
  shows "cacheAfter (generateAdventureNode cache k (Inr node)) = tl cache @ [(k, node)]"
proof (cases cache)
  case Nil
  with assms(2) show ?thesis by (simp add: CACHE_LIMIT_def)
next
  case (Cons e rest)
  obtain fk fv where e: "e = (fk, fv)" by (cases e)
  from assms(1) Cons e have "fk \<notin> fst ` set rest" by simp
  then have del: "AList.delete fk cache = rest"
    using Cons e by (simp add: AList.delete_eq filter_id_conv) force
  from assms(3) Cons e have "map_of rest k = None" by (simp split: if_splits)
  then show ?thesis
    using assms(2,3) Cons e del by (simp add: generate_miss update_absent)
qed

lemma dropWhile_filter_key:
  "(\<And>e. fst e = k \<Longrightarrow> P e) \<Longrightarrow>
     dropWhile (\<lambda>e. fst e \<noteq> k) (filter P al) = filter P (dropWhile (\<lambda>e. fst e \<noteq> k) al)"
  by (induction al) auto

lemma entriesSince_delete:
  "k' \<noteq> k \<Longrightarrow> entriesSince k (AList.delete k' al) \<le> entriesSince k al"
proof -
  assume neq: "k' \<noteq> k"
  have "dropWhile (\<lambda>e. fst e \<noteq> k) (filter (\<lambda>(k'', v). k' \<noteq> k'') al)
          = filter (\<lambda>(k'', v). k' \<noteq> k'') (dropWhile (\<lambda>e. fst e \<noteq> k) al)"
    using neq by (intro dropWhile_filter_key) auto
  then show ?thesis
    by (simp add: entriesSince_def AList.delete_eq)
qed

lemma entriesSince_append:
  "map_of al k = Some v \<Longrightarrow> entriesSince k (al @ [e]) = Suc (entriesSince k al)"
proof -
  assume "map_of al k = Some v"
  then have "(k, v) \<in> set al" by (rule map_of_SomeD)
  then have "dropWhile (\<lambda>e. fst e \<noteq> k) (al @ [e]) = dropWhile (\<lambda>e. fst e \<noteq> k) al @ [e]"
    by (intro dropWhile_append1) auto
  then show ?thesis
    by (simp add: entriesSince_def)
qed

lemma entriesSince_le_length: "entriesSince k al \<le> length al"
  by (simp add: entriesSince_def length_dropWhile_le)

lemma entriesSince_first: "entriesSince k ((k, v) # al) = Suc (length al)"
  by (simp add: entriesSince_def)

lemma survives_one_call:
  assumes present: "map_of cache k = Some node" and room: "entriesSince k cache < CACHE_LIMIT"
  shows "map_of (cacheAfter (generateAdventureNode cache k' r)) k = Some node
       \<and> entriesSince k (cacheAfter (generateAdventureNode cache k' r)) \<le> Suc (entriesSince k cache)"
proof (cases "map_of cache k'")
  case (Some n')
  with present show ?thesis by (simp add: generate_hit)
next
  case None
  with present have neq: "k' \<noteq> k" by auto
  show ?thesis
  proof (cases r)
    case (Inl err)
    with None present show ?thesis by (simp add: generate_failure)
  next
    case (Inr n')
    define evicted where "evicted =
      (if length cache \<ge> CACHE_LIMIT
       then (case cache of [] \<Rightarrow> cache | (firstKey, _) # _ \<Rightarrow> AList.delete firstKey cache)
       else cache)"
    have after: "cacheAfter (generateAdventureNode cache k' r) = AList.update k' n' evicted"
      using None Inr by (simp add: generate_miss evicted_def)
    have kept: "map_of evicted k = Some node \<and> entriesSince k evicted \<le> entriesSince k cache
                \<and> map_of evicted k' = None"
    proof (cases "length cache \<ge> CACHE_LIMIT")
      case False
      with present None show ?thesis by (simp add: evicted_def)
    next
      case True
      show ?thesis
      proof (cases cache)
        case Nil
        with present show ?thesis by simp
      next
        case (Cons e rest)
        obtain fk fv where e: "e = (fk, fv)" by (cases e)
        have "fk \<noteq> k"
        proof
          assume "fk = k"
          with Cons e have "entriesSince k cache = length cache"
            by (simp add: entriesSince_first)
          with room True show False by simp
        qed
        moreover have "evicted = AList.delete fk cache"
          using True Cons e by (simp add: evicted_def)
        ultimately show ?thesis
          using present None entriesSince_delete [of fk k cache]
          by (simp add: AList.delete_conv')
      qed
    qed
    then have app: "AList.update k' n' evicted = evicted @ [(k', n')]"
      by (simp add: update_absent)
    from kept neq have "map_of (AList.update k' n' evicted) k = Some node"
      by (simp add: AList.update_conv')
    moreover from kept have "entriesSince k (AList.update k' n' evicted) \<le> Suc (entriesSince k cache)"
      unfolding app using entriesSince_append [of evicted k node] by simp
    ultimately show ?thesis by (simp add: after)
  qed
qed

lemma survives_calls:
  "map_of cache k = Some node \<Longrightarrow> entriesSince k cache + length calls \<le> CACHE_LIMIT \<Longrightarrow>
     map_of (runCalls cache calls) k = Some node"
proof (induction calls arbitrary: cache)
  case Nil
  then show ?case by simp
next
  case (Cons c calls)
  obtain k' r where c: "c = (k', r)" by (cases c)
  from Cons.prems have room: "entriesSince k cache < CACHE_LIMIT" by simp
  note step = survives_one_call [OF Cons.prems(1) room, of k' r]
  have "map_of (runCalls (cacheAfter (generateAdventureNode cache k' r)) calls) k = Some node"
  proof (rule Cons.IH)
    show "map_of (cacheAfter (generateAdventureNode cache k' r)) k = Some node"
      using step by simp
    show "entriesSince k (cacheAfter (generateAdventureNode cache k' r)) + length calls \<le> CACHE_LIMIT"
      using step Cons.prems(2) by simp
  qed
  then show ?case by (simp add: c)
qed

lemma stored_after_miss:
  assumes "generatorInvoked (generateAdventureNode cache k r)"
    and "returned (generateAdventureNode cache k r) = Inr node"
  shows "map_of (cacheAfter (generateAdventureNode cache k r)) k = Some node
       \<and> entriesSince k (cacheAfter (generateAdventureNode cache k r)) = 1"
proof -
  from assms(1) have miss: "map_of cache k = None"
    by (cases "map_of cache k") (simp_all add: generate_hit)
  with assms(2) have r: "r = Inr node"
    by (cases r) (simp_all add: generate_failure generate_miss)
  define evicted where "evicted =
      (if length cache \<ge> CACHE_LIMIT
       then (case cache of [] \<Rightarrow> cache | (firstKey, _) # _ \<Rightarrow> AList.delete firstKey cache)
       else cache)"
  have none: "map_of evicted k = None"
    using miss by (auto simp add: evicted_def AList.delete_conv' split: list.splits)
  have after: "cacheAfter (generateAdventureNode cache k r) = evicted @ [(k, node)]"
    using miss r none by (simp add: generate_miss evicted_def [symmetric] update_absent)
  have "dropWhile (\<lambda>e. fst e \<noteq> k) evicted = []"
    using none by (induction evicted) (auto split: if_splits)
  then show ?thesis
    using none by (simp add: after entriesSince_def map_add_Some_iff)
qed

lemma returned_cached:
  assumes "returned (generateAdventureNode cache k r) = Inr node"
  shows "map_of (cacheAfter (generateAdventureNode cache k r)) k = Some node"
proof (cases "map_of cache k")
  case (Some n')
  with assms show ?thesis by (simp add: generate_hit)
next
  case None
  then have "generatorInvoked (generateAdventureNode cache k r)"
    by (cases r) (simp_all add: generate_failure generate_miss)
  with assms show ?thesis by (simp add: stored_after_miss)
qed

lemma actionKey_eq: "actionKey i = actionKey j \<longleftrightarrow> i = j"
proof
  assume "actionKey i = actionKey j"
  then have "key_choice (actionKey i) = key_choice (actionKey j)" by simp
  then have "length (replicate i (CHR ''!'')) = length (replicate j (CHR ''!''))"
    by (simp add: actionKey_def)
  then show "i = j" by simp
qed simp

lemma cachedActions_lookup:
  "map_of (cachedActions lo hi) (actionKey j) = (if lo \<le> j \<and> j < hi then Some blankNode else None)"
proof -
  have "map_of (map (\<lambda>i. (actionKey i, blankNode)) xs) (actionKey j)
          = (if j \<in> set xs then Some blankNode else None)" for xs
    by (induction xs) (auto simp add: actionKey_eq)
  then show ?thesis by (simp add: cachedActions_def)
qed

lemma cachedActions_distinct: "distinct (map fst (cachedActions lo hi))"
proof -
  have "inj actionKey" by (rule injI) (simp add: actionKey_eq)
  then have "distinct (map actionKey [lo..<hi])"
    by (simp add: distinct_map inj_on_def actionKey_eq)
  moreover have "map fst (cachedActions lo hi) = map actionKey [lo..<hi]"
    by (simp add: cachedActions_def comp_def)
  ultimately show ?thesis by simp
qed

lemma cachedActions_length: "length (cachedActions lo hi) = hi - lo"
  by (simp add: cachedActions_def)

lemma cachedActions_Cons:
  "lo < hi \<Longrightarrow> cachedActions lo hi = (actionKey lo, blankNode) # cachedActions (Suc lo) hi"
  by (simp add: cachedActions_def upt_conv_Cons)

lemma cachedActions_snoc:
  "lo \<le> hi \<Longrightarrow> cachedActions lo (Suc hi) = cachedActions lo hi @ [(actionKey hi, blankNode)]"
  by (simp add: cachedActions_def)

text \<open>One more action on a cache of consecutive actions: the window moves on when
  the cache is full.\<close>

lemma cachedActions_step:
  assumes "lo \<le> hi" and "hi - lo \<le> CACHE_LIMIT"
  shows "cacheAfter (generateAdventureNode (cachedActions lo hi) (actionKey hi) (Inr blankNode))
           = cachedActions (if hi - lo \<ge> CACHE_LIMIT then Suc lo else lo) (Suc hi)"
proof -
  have miss: "map_of (cachedActions lo hi) (actionKey hi) = None"
    by (simp add: cachedActions_lookup)
  show ?thesis
  proof (cases "hi - lo \<ge> CACHE_LIMIT")
    case False
    then show ?thesis
      using miss assms(1)
      by (simp add: generate_miss cachedActions_length update_absent cachedActions_snoc)
  next
    case True
    then have lt: "lo < hi" by (simp add: CACHE_LIMIT_def)
    have "cacheAfter (generateAdventureNode (cachedActions lo hi) (actionKey hi) (Inr blankNode))
            = tl (cachedActions lo hi) @ [(actionKey hi, blankNode)]"
      using True miss by (intro evict_oldest cachedActions_distinct) (simp_all add: cachedActions_length)
    also have "\<dots> = cachedActions (Suc lo) hi @ [(actionKey hi, blankNode)]"
      using lt by (simp add: cachedActions_Cons)
    also have "\<dots> = cachedActions (Suc lo) (Suc hi)"
      using lt by (simp add: cachedActions_snoc)
    finally show ?thesis using True by simp
  qed
qed

lemma actionCalls_Cons:
  "a < b \<Longrightarrow> actionCalls a b = (actionKey a, Inr blankNode) # actionCalls (Suc a) b"
  by (simp add: actionCalls_def upt_conv_Cons)

lemma runCalls_actions:
  "lo \<le> a \<Longrightarrow> a \<le> b \<Longrightarrow> a - lo \<le> CACHE_LIMIT \<Longrightarrow>
     runCalls (cachedActions lo a) (actionCalls a b) = cachedActions (max lo (b - CACHE_LIMIT)) b"
proof (induction "b - a" arbitrary: lo a)
  case 0
  then have "max lo (b - CACHE_LIMIT) = lo" and "a = b"
    by simp_all
  then show ?case by (simp add: actionCalls_def)
next
  case (Suc d)
  then have lt: "a < b" by simp
  define lo' where "lo' = (if a - lo \<ge> CACHE_LIMIT then Suc lo else lo)"
  have step: "cacheAfter (generateAdventureNode (cachedActions lo a) (actionKey a) (Inr blankNode))
                = cachedActions lo' (Suc a)"
    using Suc.prems by (simp add: cachedActions_step lo'_def)
  have "runCalls (cachedActions lo' (Suc a)) (actionCalls (Suc a) b)
          = cachedActions (max lo' (b - CACHE_LIMIT)) b"
  proof (rule Suc.hyps(1))
    show "d = b - Suc a" using Suc.hyps(2) by simp
    show "lo' \<le> Suc a" using Suc.prems by (simp add: lo'_def)
    show "Suc a \<le> b" using lt by simp
    show "Suc a - lo' \<le> CACHE_LIMIT" using Suc.prems by (auto simp add: lo'_def)
  qed
  moreover have "max lo' (b - CACHE_LIMIT) = max lo (b - CACHE_LIMIT)"
    using Suc.prems lt by (auto simp add: lo'_def max_def)
  ultimately show ?case
    using lt by (simp add: actionCalls_Cons step)
qed

lemma first_action_cached:
  "generateAdventureNode [] (actionKey 0) (Inr blankNode)
     = \<lparr> returned = Inr blankNode, cacheAfter = cachedActions 0 1, generatorInvoked = True \<rparr>"
  by (simp add: generateAdventureNode_def CACHE_LIMIT_def cachedActions_def Let_def)

text \<open>
  Claim C8, as stated, fails: not every later call with the same fingerprint is
  answered from the cache. The first action of a session is answered by the generator
  and cached; the next 50 calls are 50 other actions, the last of which finds the
  cache full and evicts the first action's entry; the first action, submitted again,
  invokes the generator and returns its new answer.
\<close>

theorem cache_pair_counterexample:
  "returned (generateAdventureNode [] (actionKey 0) (Inr blankNode)) = Inr blankNode
   \<and> length (actionCalls 1 51) = 50
   \<and> generatorInvoked
        (generateAdventureNode
           (runCalls (cacheAfter (generateAdventureNode [] (actionKey 0) (Inr blankNode)))
              (actionCalls 1 51))
           (actionKey 0) (Inr laterNode))
   \<and> returned
        (generateAdventureNode
           (runCalls (cacheAfter (generateAdventureNode [] (actionKey 0) (Inr blankNode)))
              (actionCalls 1 51))
           (actionKey 0) (Inr laterNode)) = Inr laterNode"
proof -
  have run: "runCalls (cachedActions 0 1) (actionCalls 1 51) = cachedActions 1 51"
    using runCalls_actions [of 0 1 51] by (simp add: CACHE_LIMIT_def)
  have gone: "map_of (cachedActions (Suc 0) 51) (actionKey 0) = None"
    by (simp add: cachedActions_lookup)
  have later: "runCalls (cacheAfter (generateAdventureNode [] (actionKey 0) (Inr blankNode)))
                 (actionCalls 1 51) = cachedActions 1 51"
    using run by (simp add: first_action_cached)
  show ?thesis
    unfolding later
    by (simp add: first_action_cached generate_miss [OF gone] actionCalls_def)
qed

text \<open>
  Claim C8, amended. The capacity is 50. A call that follows at once on a call
  with the same fingerprint that returned a node returns that node, does not invoke
  the generator and leaves the cache as it is; so does a call that follows on a call
  that invoked the generator and returned a node, with fewer than 50 other calls in
  between. A hit returns the cached node and does not reorder the cache. An answer
  stored into a cache that holds 50 entries or more evicts the entry inserted first
  and goes to the end.
\<close>

theorem cached_node_reused:
  "CACHE_LIMIT = 50
   \<and> (returned (generateAdventureNode cache k r) = Inr node \<longrightarrow>
        generateAdventureNode (cacheAfter (generateAdventureNode cache k r)) k r'
          = \<lparr> returned = Inr node,
              cacheAfter = cacheAfter (generateAdventureNode cache k r),
              generatorInvoked = False \<rparr>)
   \<and> (generatorInvoked (generateAdventureNode cache k r)
        \<and> returned (generateAdventureNode cache k r) = Inr node
        \<and> length calls < CACHE_LIMIT \<longrightarrow>
        generateAdventureNode (runCalls (cacheAfter (generateAdventureNode cache k r)) calls) k r'
          = \<lparr> returned = Inr node,
              cacheAfter = runCalls (cacheAfter (generateAdventureNode cache k r)) calls,
              generatorInvoked = False \<rparr>)
   \<and> (map_of cache k = Some node \<longrightarrow>
        generateAdventureNode cache k r
          = \<lparr> returned = Inr node, cacheAfter = cache, generatorInvoked = False \<rparr>)
   \<and> (distinct (map fst cache) \<and> length cache \<ge> CACHE_LIMIT \<and> map_of cache k = None \<longrightarrow>
        cacheAfter (generateAdventureNode cache k (Inr node)) = tl cache @ [(k, node)])"
proof -
  have next_call: "returned (generateAdventureNode cache k r) = Inr node \<longrightarrow>
        generateAdventureNode (cacheAfter (generateAdventureNode cache k r)) k r'
          = \<lparr> returned = Inr node,
              cacheAfter = cacheAfter (generateAdventureNode cache k r),
              generatorInvoked = False \<rparr>"
    using returned_cached [of cache k r node] by (simp add: generate_hit)
  have later_call: "generatorInvoked (generateAdventureNode cache k r)
        \<and> returned (generateAdventureNode cache k r) = Inr node
        \<and> length calls < CACHE_LIMIT \<longrightarrow>
        generateAdventureNode (runCalls (cacheAfter (generateAdventureNode cache k r)) calls) k r'
          = \<lparr> returned = Inr node,
              cacheAfter = runCalls (cacheAfter (generateAdventureNode cache k r)) calls,
              generatorInvoked = False \<rparr>"
  proof (intro impI, elim conjE)
    assume inv: "generatorInvoked (generateAdventureNode cache k r)"
      and ret: "returned (generateAdventureNode cache k r) = Inr node"
      and few: "length calls < CACHE_LIMIT"
    note stored = stored_after_miss [OF inv ret]
    have "map_of (runCalls (cacheAfter (generateAdventureNode cache k r)) calls) k = Some node"
      using stored few by (intro survives_calls) simp_all
    then show "generateAdventureNode (runCalls (cacheAfter (generateAdventureNode cache k r)) calls) k r'
          = \<lparr> returned = Inr node,
              cacheAfter = runCalls (cacheAfter (generateAdventureNode cache k r)) calls,
              generatorInvoked = False \<rparr>"
      by (rule generate_hit)
  qed
  from next_call later_call generate_hit [of cache k node r] evict_oldest [of cache k node]
  show ?thesis by (simp add: CACHE_LIMIT_def)
qed

theorem cached_node_reused_witness:
  "returned (generateAdventureNode [] (actionKey 0) (Inr blankNode)) = Inr blankNode
   \<and> generatorInvoked (generateAdventureNode [] (actionKey 0) (Inr blankNode))
   \<and> length (actionCalls 1 50) < CACHE_LIMIT
   \<and> returned
        (generateAdventureNode
           (runCalls (cacheAfter (generateAdventureNode [] (actionKey 0) (Inr blankNode)))
              (actionCalls 1 50))
           (actionKey 0) (Inr laterNode)) = Inr blankNode
   \<and> \<not> generatorInvoked
        (generateAdventureNode
           (runCalls (cacheAfter (generateAdventureNode [] (actionKey 0) (Inr blankNode)))
              (actionCalls 1 50))
           (actionKey 0) (Inr laterNode))
   \<and> map_of (cachedActions 0 50) (actionKey 0) = Some blankNode
   \<and> cacheAfter (generateAdventureNode (cachedActions 0 50) (actionKey 0) (Inr laterNode))
       = cachedActions 0 50
   \<and> distinct (map fst (cachedActions 0 50))
   \<and> length (cachedActions 0 50) \<ge> CACHE_LIMIT
   \<and> map_of (cachedActions 0 50) (actionKey 50) = None
   \<and> cacheAfter (generateAdventureNode (cachedActions 0 50) (actionKey 50) (Inr blankNode))
       = tl (cachedActions 0 50) @ [(actionKey 50, blankNode)]"
proof -
  have h1: "returned (generateAdventureNode [] (actionKey 0) (Inr blankNode)) = Inr blankNode"
    and h2: "generatorInvoked (generateAdventureNode [] (actionKey 0) (Inr blankNode))"
    by (simp_all add: first_action_cached)
  have h3: "length (actionCalls 1 50) < CACHE_LIMIT"
    by (simp add: actionCalls_def CACHE_LIMIT_def)
  have h4: "map_of (cachedActions 0 50) (actionKey 0) = Some blankNode"
    and h5: "map_of (cachedActions 0 50) (actionKey 50) = None"
    by (simp_all add: cachedActions_lookup)
  have h6: "length (cachedActions 0 50) \<ge> CACHE_LIMIT"
    by (simp add: cachedActions_length CACHE_LIMIT_def)
  note h7 = cachedActions_distinct [of 0 50]
  note t1 = cached_node_reused [of "[]" "actionKey 0" "Inr blankNode" blankNode "Inr laterNode"
      "actionCalls 1 50"]
  note t2 = cached_node_reused [of "cachedActions 0 50" "actionKey 0" "Inr laterNode" blankNode]
  note t3 = cached_node_reused [of "cachedActions 0 50" "actionKey 50" "Inr blankNode" blankNode]
  have c1: "generateAdventureNode
           (runCalls (cacheAfter (generateAdventureNode [] (actionKey 0) (Inr blankNode)))
              (actionCalls 1 50))
           (actionKey 0) (Inr laterNode)
          = \<lparr> returned = Inr blankNode,
              cacheAfter = runCalls (cacheAfter (generateAdventureNode [] (actionKey 0) (Inr blankNode)))
                 (actionCalls 1 50),
              generatorInvoked = False \<rparr>"
    using t1 h1 h2 h3 by blast
  have c2: "cacheAfter (generateAdventureNode (cachedActions 0 50) (actionKey 0) (Inr laterNode))
       = cachedActions 0 50"
  proof -
    have "generateAdventureNode (cachedActions 0 50) (actionKey 0) (Inr laterNode)
            = \<lparr> returned = Inr blankNode, cacheAfter = cachedActions 0 50,
                generatorInvoked = False \<rparr>"
      using t2 h4 by blast
    then show ?thesis by simp
  qed
  have c3: "cacheAfter (generateAdventureNode (cachedActions 0 50) (actionKey 50) (Inr blankNode))
       = tl (cachedActions 0 50) @ [(actionKey 50, blankNode)]"
    using t3 h5 h6 h7 by blast
  from h1 h2 h3 h4 h5 h6 h7 c1 c2 c3 show ?thesis by simp
qed

end
